theory Spec2Isabelle
  imports Main
begin

section \<open>Edit distances and local alignment of glu.lib.seqlib._edits\<close>

text \<open>
  A shallow embedding of \<^verbatim>\<open>src/glu/lib/seqlib/_edits.pyx\<close>. Sequences are byte
  strings (\<open>char *\<close> with the length of the Python string), modelled as \<open>string\<close>.
  \<open>Py_ssize_t\<close> values are modelled as \<open>int\<close>; the entries of the \<open>int *\<close> cost
  tables of the alignment engines are truncated to 32 bits when they are stored.

  The source is Cython, whose \<open>for v in range(k)\<close> keeps Python's meaning for the
  loop variable: \<open>v\<close> is assigned at the start of each iteration only. After a loop that
  ran to its end \<open>v\<close> holds the last value \<open>k - 1\<close>, after a \<open>break\<close> the value of
  the iteration that broke, and when the range is empty \<open>v\<close> keeps the value it had.
\<close>

subsection \<open>Errors\<close>

datatype error =
    LengthMismatch
  | UnknownOp char
  | InvalidEditOperation
  | OutOfBounds string

subsection \<open>Fixed-arity minimum and maximum\<close>

definition min2 :: "int \<Rightarrow> int \<Rightarrow> int" where
  "min2 a b = (if a < b then a else b)"

definition min3 :: "int \<Rightarrow> int \<Rightarrow> int \<Rightarrow> int" where
  "min3 a b c = min2 (min2 a b) c"

definition min4 :: "int \<Rightarrow> int \<Rightarrow> int \<Rightarrow> int \<Rightarrow> int" where
  "min4 a b c d = min2 (min2 a b) (min2 c d)"

definition max2 :: "int \<Rightarrow> int \<Rightarrow> int" where
  "max2 a b = (if a \<ge> b then a else b)"

definition max3 :: "int \<Rightarrow> int \<Rightarrow> int \<Rightarrow> int" where
  "max3 a b c = max2 (max2 a b) c"

definition max4 :: "int \<Rightarrow> int \<Rightarrow> int \<Rightarrow> int \<Rightarrow> int" where
  "max4 a b c d = max2 (max2 a b) (max2 c d)"

subsection \<open>Hamming distance\<close>

text \<open>
  \<^verbatim>\<open>for i in range(l1): if ss1[i]!=ss2[i]: d += 1\<close>, after the length check that
  raises \<open>ValueError('Length mismatch')\<close>.
\<close>

definition hamming_distance :: "string \<Rightarrow> string \<Rightarrow> error + int" where
  "hamming_distance s1 s2 =
     (let l1 = length s1; l2 = length s2
      in if l1 \<noteq> l2 then Inl LengthMismatch
         else Inr (fold (\<lambda>i d. if s1 ! i \<noteq> s2 ! i then d + 1 else d) [0..<l1] 0))"

subsection \<open>Common prefix and suffix removal\<close>

text \<open>
  The value of the loop variable after \<^verbatim>\<open>for v in range(..): if brk(v): break\<close>,
  where the last argument is the value the variable has before the remaining iterations.
\<close>

fun for_break :: "(nat \<Rightarrow> bool) \<Rightarrow> nat list \<Rightarrow> int \<Rightarrow> int" where
  "for_break brk [] v = v"
| "for_break brk (x # xs) v = (if brk x then int x else for_break brk xs (int x))"

text \<open>Python's \<open>s[a:b]\<close>: a negative bound counts from the end, and both are clipped.\<close>

definition slice_bound :: "int \<Rightarrow> int \<Rightarrow> int" where
  "slice_bound len x = (if x < 0 then max (x + len) 0 else min x len)"

definition py_slice :: "'a list \<Rightarrow> int \<Rightarrow> int \<Rightarrow> 'a list" where
  "py_slice s a b =
     (let len = int (length s); lo = slice_bound len a; hi = slice_bound len b
      in take (nat (hi - lo)) (drop (nat lo) s))"

definition reduce_match :: "string \<Rightarrow> string \<Rightarrow> string \<times> string \<times> int" where
  "reduce_match s1 s2 =
     (let l1 = int (length s1);
          l2 = int (length s2);
          l = min2 l1 l2;
          i = for_break (\<lambda>i. s1 ! i \<noteq> s2 ! i) [0..<nat l] 0;
          j = for_break (\<lambda>j. s1 ! nat (l1 - int j - 1) \<noteq> s2 ! nat (l2 - int j - 1))
                [0..<nat (l - i)] (l1 - 1)
      in (py_slice s1 i (l1 - j), py_slice s2 i (l2 - j), i))"

subsection \<open>Levenshtein distance\<close>

text \<open>One pass of the inner loop: cell \<open>j + 1\<close> of the current row.\<close>

definition lev_cell :: "char \<Rightarrow> string \<Rightarrow> int list \<Rightarrow> nat \<Rightarrow> int list \<Rightarrow> int list" where
  "lev_cell c1 ss2 previous j current =
     (let c2 = ss2 ! j;
          cost = (if c1 = c2 then 0 else 1);
          match = previous ! j + cost;
          ins = current ! j + 1;
          del = previous ! (j + 1) + 1
      in current[j + 1 := min3 match ins del])"

text \<open>
  One pass of the outer loop on the pair \<open>(current, previous)\<close>: the rows are swapped,
  the first cell is set and the inner loop fills the rest.
\<close>

definition lev_row :: "string \<Rightarrow> string \<Rightarrow> nat \<Rightarrow> int list \<times> int list \<Rightarrow> int list \<times> int list" where
  "lev_row ss1 ss2 i rows =
     (case rows of (current, previous) \<Rightarrow>
        (let c1 = ss1 ! i;
             previous' = current;
             current' = previous[0 := int i + 1]
         in (fold (lev_cell c1 ss2 previous') [0..<length ss2] current', previous')))"

text \<open>The two rows after the outer loop, from the initial rows \<open>[0..m]\<close> and zeros.\<close>

definition lev_rows :: "string \<Rightarrow> string \<Rightarrow> int list \<times> int list" where
  "lev_rows s1 s2 =
     (let n = length s1; m = length s2
      in fold (lev_row s1 s2) [0..<n] (map int [0..<m + 1], replicate (m + 1) 0))"

text \<open>
  The body of \<open>levenshtein_distance\<close> after its call of \<open>reduce_match\<close>: the swap
  that makes the second sequence the shorter one, the fast path and the two-row table.
\<close>

definition levenshtein_body :: "string \<Rightarrow> string \<Rightarrow> int" where
  "levenshtein_body a b =
     (let (s1, s2) = (if length a < length b then (b, a) else (a, b))
      in if s2 = [] then int (length s1)
         else fst (lev_rows s1 s2) ! length s2)"

definition levenshtein_distance :: "string \<Rightarrow> string \<Rightarrow> int" where
  "levenshtein_distance s1 s2 =
     (case reduce_match s1 s2 of (a, b, _) \<Rightarrow> levenshtein_body a b)"

subsection \<open>Damerau-Levenshtein distance\<close>

text \<open>
  The inner loop with the transposition candidate, which reads the row two steps back.
  The guard \<open>i and j and ...\<close> is evaluated left to right, so \<open>ss2[j-1]\<close> and
  \<open>ss1[i-1]\<close> are read only for positive \<open>i\<close> and \<open>j\<close>.
\<close>

definition dl_cell ::
  "string \<Rightarrow> string \<Rightarrow> nat \<Rightarrow> int list \<Rightarrow> int list \<Rightarrow> nat \<Rightarrow> int list \<Rightarrow> int list" where
  "dl_cell ss1 ss2 i previous1 previous2 j current =
     (let c1 = ss1 ! i;
          c2 = ss2 ! j;
          cost = (if c1 = c2 then 0 else 1);
          match = previous1 ! j + cost;
          ins = current ! j + 1;
          del = previous1 ! (j + 1) + 1;
          trans = (if i \<noteq> 0 \<and> j \<noteq> 0 \<and> c1 = ss2 ! (j - 1) \<and> ss1 ! (i - 1) = c2
                   then previous2 ! (j - 1) + 1 else match)
      in current[j + 1 := min4 match ins del trans])"

text \<open>
  One pass of the outer loop on \<open>(current, previous1, previous2)\<close>, rotating the three
  rows as \<^verbatim>\<open>previous2,previous1,current = previous1,current,previous2\<close> does.
\<close>

definition dl_row ::
  "string \<Rightarrow> string \<Rightarrow> nat \<Rightarrow> int list \<times> int list \<times> int list \<Rightarrow> int list \<times> int list \<times> int list" where
  "dl_row ss1 ss2 i rows =
     (case rows of (current, previous1, previous2) \<Rightarrow>
        (let previous2' = previous1;
             previous1' = current;
             current' = previous2[0 := int i + 1]
         in (fold (dl_cell ss1 ss2 i previous1' previous2') [0..<length ss2] current',
             previous1', previous2')))"

definition dl_rows :: "string \<Rightarrow> string \<Rightarrow> int list \<times> int list \<times> int list" where
  "dl_rows s1 s2 =
     (let n = length s1; m = length s2
      in fold (dl_row s1 s2) [0..<n]
           (map int [0..<m + 1], replicate (m + 1) 0, replicate (m + 1) 0))"

text \<open>
  The body of \<open>damerau_levenshtein_distance\<close> after its call of \<open>reduce_match\<close>. Its
  fast path tests \<open>s1\<close>, the longer sequence, so it is taken only when both are empty.
\<close>

definition damerau_levenshtein_body :: "string \<Rightarrow> string \<Rightarrow> int" where
  "damerau_levenshtein_body a b =
     (let (s1, s2) = (if length a < length b then (b, a) else (a, b))
      in if s1 = [] then int (length s2)
         else fst (dl_rows s1 s2) ! length s2)"

definition damerau_levenshtein_distance :: "string \<Rightarrow> string \<Rightarrow> int" where
  "damerau_levenshtein_distance s1 s2 =
     (case reduce_match s1 s2 of (a, b, _) \<Rightarrow> damerau_levenshtein_body a b)"

subsection \<open>Alignment scripts\<close>

text \<open>\<open>CigarOp = namedtuple('CigarOp', 'op count')\<close>.\<close>

datatype CigarOp = CigarOp (op: string) (count: int)

definition op_str :: "char \<Rightarrow> error + string" where
  "op_str c =
     (if c = CHR ''S'' then Inr ''S''
      else if c = CHR ''N'' then Inr ''N''
      else if c = CHR ''M'' then Inr ''M''
      else if c = CHR ''='' then Inr ''=''
      else if c = CHR ''X'' then Inr ''X''
      else if c = CHR ''I'' then Inr ''I''
      else if c = CHR ''D'' then Inr ''D''
      else if c = CHR ''T'' then Inr ''T''
      else Inl (UnknownOp c))"

text \<open>
  A read of a C array at an index that may lie outside of it. The first argument names
  the array in the error.
\<close>

definition read_at :: "string \<Rightarrow> 'a list \<Rightarrow> int \<Rightarrow> error + 'a" where
  "read_at name xs idx =
     (if 0 \<le> idx \<and> idx < int (length xs) then Inr (xs ! nat idx) else Inl (OutOfBounds name))"

text \<open>
  The scratch buffer \<open>igar\<close> with its write position \<open>k\<close>. \<open>igar[k] = c; k += 1\<close>
  is a write into a buffer of \<open>max2(n,m)\<close> bytes; a write past its end is an error of
  the model.
\<close>

type_synonym buffer = "char list \<times> nat"

definition put :: "char \<Rightarrow> buffer \<Rightarrow> error + buffer" where
  "put c b =
     (case b of (igar, k) \<Rightarrow>
        if k < length igar then Inr (igar[k := c], k + 1) else Inl (OutOfBounds ''igar''))"

text \<open>
  \<^verbatim>\<open>while n-1>i: igar[k] = 'S'; k += 1; n -= 1\<close> and its twin for \<open>m\<close>, \<open>j\<close> and
  \<open>'N'\<close>. The loop returns the decremented bound as well, because the source goes on
  with it.
\<close>

function skip_loop :: "char \<Rightarrow> int \<Rightarrow> int \<Rightarrow> buffer \<Rightarrow> error + (int \<times> buffer)" where
  "skip_loop c n i b =
     (if n - 1 > i
      then (case put c b of Inl e \<Rightarrow> Inl e | Inr b' \<Rightarrow> skip_loop c (n - 1) i b')
      else Inr (n, b))"
  by pat_completeness auto
termination
  by (relation "measure (\<lambda>(c, n, i, b). nat (n - 1 - i))") auto

text \<open>
  The backward walk over the recorded operations. \<open>m\<close> is the row stride the source
  uses, which is the value of \<open>m\<close> after the skip loop above has decremented it.
\<close>

function walk :: "int \<Rightarrow> char list \<Rightarrow> int \<Rightarrow> int \<Rightarrow> buffer \<Rightarrow> error + (int \<times> int \<times> buffer)" where
  "walk m edits i j b =
     (if i \<ge> 0 \<and> j \<ge> 0
      then (case read_at ''edits'' edits (m * i + j) of
              Inl e \<Rightarrow> Inl e
            | Inr c \<Rightarrow>
                (case put c b of
                   Inl e \<Rightarrow> Inl e
                 | Inr b' \<Rightarrow>
                     if c = CHR ''M'' \<or> c = CHR ''='' \<or> c = CHR ''X''
                       then walk m edits (i - 1) (j - 1) b'
                     else if c = CHR ''D'' then walk m edits (i - 1) j b'
                     else if c = CHR ''I'' then walk m edits i (j - 1) b'
                     else if c = CHR ''T'' then walk m edits (i - 2) (j - 2) b'
                     else Inl InvalidEditOperation))
      else Inr (i, j, b))"
  by pat_completeness auto
termination
  by (relation "measure (\<lambda>(m, edits, i, j, b). nat (i + j + 2))") auto

text \<open>\<^verbatim>\<open>while j>=0: igar[k] = 'N'; k += 1; j -= 1\<close> and its twin for \<open>i\<close> and \<open>'S'\<close>.\<close>

function tail_loop :: "char \<Rightarrow> int \<Rightarrow> buffer \<Rightarrow> error + buffer" where
  "tail_loop c j b =
     (if j \<ge> 0
      then (case put c b of Inl e \<Rightarrow> Inl e | Inr b' \<Rightarrow> tail_loop c (j - 1) b')
      else Inr b)"
  by pat_completeness auto
termination
  by (relation "measure (\<lambda>(c, j, b). nat (j + 1))") auto

text \<open>
  The run-length encoder. Its state is \<open>(op, count, cigar)\<close>; one step reads one
  symbol. \<open>roll_loop\<close> runs over the symbols in the order the loop
  \<^verbatim>\<open>for k in range(k-1,-1,-1)\<close> reads them.
\<close>

definition roll_step ::
  "char \<Rightarrow> char \<times> int \<times> CigarOp list \<Rightarrow> error + (char \<times> int \<times> CigarOp list)" where
  "roll_step c st =
     (case st of (opc, cnt, cigar) \<Rightarrow>
        if c = opc then Inr (opc, cnt + 1, cigar)
        else if cnt \<noteq> 0
          then (case op_str opc of
                  Inl e \<Rightarrow> Inl e
                | Inr s \<Rightarrow> Inr (c, 1, cigar @ [CigarOp s cnt]))
          else Inr (c, 1, cigar))"

fun roll_loop ::
  "char list \<Rightarrow> char \<times> int \<times> CigarOp list \<Rightarrow> error + (char \<times> int \<times> CigarOp list)" where
  "roll_loop [] st = Inr st"
| "roll_loop (c # cs) st =
     (case roll_step c st of Inl e \<Rightarrow> Inl e | Inr st' \<Rightarrow> roll_loop cs st')"

definition roll_finish :: "char \<times> int \<times> CigarOp list \<Rightarrow> error + CigarOp list" where
  "roll_finish st =
     (case st of (opc, cnt, cigar) \<Rightarrow>
        if cnt \<noteq> 0
        then (case op_str opc of Inl e \<Rightarrow> Inl e | Inr s \<Rightarrow> Inr (cigar @ [CigarOp s cnt]))
        else Inr cigar)"

text \<open>The encoder on a flat sequence of symbols, from \<open>op = 0\<close> and \<open>count = 0\<close>.\<close>

definition roll_encode :: "char list \<Rightarrow> error + CigarOp list" where
  "roll_encode syms =
     (case roll_loop syms (CHR 0x00, 0, []) of Inl e \<Rightarrow> Inl e | Inr st \<Rightarrow> roll_finish st)"

definition roll_cigar :: "int \<Rightarrow> int \<Rightarrow> int \<Rightarrow> int \<Rightarrow> char list \<Rightarrow> error + CigarOp list" where
  "roll_cigar n m i j edits =
     (let b0 = (replicate (nat (max2 n m)) (CHR 0x00), 0)
      in case skip_loop (CHR ''S'') n i b0 of
           Inl e \<Rightarrow> Inl e
         | Inr (n', b1) \<Rightarrow>
        (case skip_loop (CHR ''N'') m j b1 of
           Inl e \<Rightarrow> Inl e
         | Inr (m', b2) \<Rightarrow>
        (case walk m' edits i j b2 of
           Inl e \<Rightarrow> Inl e
         | Inr (i', j', b3) \<Rightarrow>
        (case tail_loop (CHR ''N'') j' b3 of
           Inl e \<Rightarrow> Inl e
         | Inr b4 \<Rightarrow>
        (case tail_loop (CHR ''S'') i' b4 of
           Inl e \<Rightarrow> Inl e
         | Inr (igar, k) \<Rightarrow> roll_encode (map ((!) igar) (rev [0..<k])))))))"

subsection \<open>Smith-Waterman local alignment\<close>

text \<open>The value a \<open>Py_ssize_t\<close> has after it is stored into a 32-bit \<open>int\<close>.\<close>

definition cint :: "int \<Rightarrow> int" where
  "cint x = (x + 2147483648) mod 4294967296 - 2147483648"

record sw_state =
  cost :: "int list"
  edits :: "char list"
  max_i :: int
  max_j :: int
  max_cost :: int

definition sw_cell ::
  "string \<Rightarrow> string \<Rightarrow> int \<Rightarrow> int \<Rightarrow> int \<Rightarrow> nat \<Rightarrow> nat \<Rightarrow> sw_state \<Rightarrow> sw_state" where
  "sw_cell ss1 ss2 match_score mismatch_score gap_score i j st =
     (let m = length ss2;
          c1 = ss1 ! i;
          c2 = ss2 ! j;
          match = cost st ! ((m + 1) * i + j)
                    + (if c1 = c2 then match_score else mismatch_score);
          ins = cost st ! ((m + 1) * (i + 1) + j) + gap_score;
          del = cost st ! ((m + 1) * i + j + 1) + gap_score;
          mcost = max4 0 match ins del;
          st1 = st\<lparr>cost := (cost st)[(m + 1) * (i + 1) + j + 1 := cint mcost]\<rparr>;
          st2 = (if mcost > max_cost st1
                 then st1\<lparr>max_cost := mcost, max_i := int i, max_j := int j\<rparr>
                 else st1);
          c = (if mcost = match \<and> c1 = c2 then CHR ''=''
               else if mcost = match then CHR ''X''
               else if mcost = ins then CHR ''I''
               else CHR ''D'')
      in st2\<lparr>edits := (edits st2)[m * i + j := c]\<rparr>)"

definition sw_row ::
  "string \<Rightarrow> string \<Rightarrow> int \<Rightarrow> int \<Rightarrow> int \<Rightarrow> nat \<Rightarrow> sw_state \<Rightarrow> sw_state" where
  "sw_row ss1 ss2 match_score mismatch_score gap_score i st =
     (let m = length ss2;
          st1 = st\<lparr>cost := (cost st)[(m + 1) * (i + 1) := 0]\<rparr>
      in fold (sw_cell ss1 ss2 match_score mismatch_score gap_score i) [0..<m] st1)"

text \<open>
  The tables after the two nested loops. The memory \<open>malloc\<close> returns is modelled as
  zeros; every cell that is read was written before.
\<close>

definition sw_table :: "string \<Rightarrow> string \<Rightarrow> int \<Rightarrow> int \<Rightarrow> int \<Rightarrow> sw_state" where
  "sw_table s1 s2 match_score mismatch_score gap_score =
     (let n = length s1;
          m = length s2;
          st0 = \<lparr>cost = fold (\<lambda>j c. c[j := 0]) [0..<m + 1] (replicate ((n + 1) * (m + 1)) 0),
                 edits = replicate (n * m) (CHR 0x00),
                 max_i = 0, max_j = 0, max_cost = 0\<rparr>
      in fold (sw_row s1 s2 match_score mismatch_score gap_score) [0..<n] st0)"

definition smith_waterman ::
  "string \<Rightarrow> string \<Rightarrow> int \<Rightarrow> int \<Rightarrow> int \<Rightarrow> error + (int \<times> CigarOp list)" where
  "smith_waterman s1 s2 match_score mismatch_score gap_score =
     (let n = int (length s1);
          m = int (length s2);
          st = sw_table s1 s2 match_score mismatch_score gap_score
      in case read_at ''cost'' (cost st) ((m + 1) * (max_i st + 1) + max_j st + 1) of
           Inl e \<Rightarrow> Inl e
         | Inr score \<Rightarrow>
             (case roll_cigar n m (max_i st) (max_j st) (edits st) of
                Inl e \<Rightarrow> Inl e
              | Inr cigar \<Rightarrow> Inr (score, cigar)))"

subsection \<open>Smith-Waterman-Gotoh local alignment\<close>

record gotoh_state = sw_state +
  gap1 :: "int list"
  gap2 :: "int list"

definition gotoh_cell ::
  "string \<Rightarrow> string \<Rightarrow> int \<Rightarrow> int \<Rightarrow> int \<Rightarrow> int \<Rightarrow> nat \<Rightarrow> nat \<Rightarrow> gotoh_state \<Rightarrow> gotoh_state" where
  "gotoh_cell ss1 ss2 match_score mismatch_score gap_open_score gap_extend_score i j st =
     (let m = length ss2;
          c1 = ss1 ! i;
          c2 = ss2 ! j;
          match = cost st ! ((m + 1) * i + j)
                    + (if c1 = c2 then match_score else mismatch_score);
          ins = max2 (gap1 st ! ((m + 1) * (i + 1) + j) + gap_extend_score)
                     (cost st ! ((m + 1) * (i + 1) + j) + gap_open_score);
          st1 = st\<lparr>gap1 := (gap1 st)[(m + 1) * (i + 1) + j + 1 := cint ins]\<rparr>;
          del = max2 (gap2 st1 ! ((m + 1) * i + j + 1) + gap_extend_score)
                     (cost st1 ! ((m + 1) * i + j + 1) + gap_open_score);
          st2 = st1\<lparr>gap2 := (gap2 st1)[(m + 1) * (i + 1) + j + 1 := cint del]\<rparr>;
          mcost = max4 0 match ins del;
          st3 = st2\<lparr>cost := (cost st2)[(m + 1) * (i + 1) + j + 1 := cint mcost]\<rparr>;
          st4 = (if mcost > max_cost st3
                 then st3\<lparr>max_cost := mcost, max_i := int i, max_j := int j\<rparr>
                 else st3);
          c = (if mcost = match \<and> c1 = c2 then CHR ''=''
               else if mcost = match then CHR ''X''
               else if mcost = ins then CHR ''I''
               else CHR ''D'')
      in st4\<lparr>edits := (edits st4)[m * i + j := c]\<rparr>)"

definition gotoh_row ::
  "string \<Rightarrow> string \<Rightarrow> int \<Rightarrow> int \<Rightarrow> int \<Rightarrow> int \<Rightarrow> nat \<Rightarrow> gotoh_state \<Rightarrow> gotoh_state" where
  "gotoh_row ss1 ss2 match_score mismatch_score gap_open_score gap_extend_score i st =
     (let m = length ss2;
          st1 = st\<lparr>cost := (cost st)[(m + 1) * (i + 1) := 0],
                   gap1 := (gap1 st)[(m + 1) * (i + 1) := 0],
                   gap2 := (gap2 st)[(m + 1) * (i + 1) := 0]\<rparr>
      in fold (gotoh_cell ss1 ss2 match_score mismatch_score gap_open_score gap_extend_score i)
           [0..<m] st1)"

definition gotoh_table :: "string \<Rightarrow> string \<Rightarrow> int \<Rightarrow> int \<Rightarrow> int \<Rightarrow> int \<Rightarrow> gotoh_state" where
  "gotoh_table s1 s2 match_score mismatch_score gap_open_score gap_extend_score =
     (let n = length s1;
          m = length s2;
          zeros = replicate ((n + 1) * (m + 1)) 0;
          st0 = \<lparr>cost = fold (\<lambda>j c. c[j := 0]) [0..<m + 1] zeros,
                 edits = replicate (n * m) (CHR 0x00),
                 max_i = 0, max_j = 0, max_cost = 0,
                 gap1 = fold (\<lambda>j c. c[j := 0]) [0..<m + 1] zeros,
                 gap2 = fold (\<lambda>j c. c[j := 0]) [0..<m + 1] zeros\<rparr>
      in fold (gotoh_row s1 s2 match_score mismatch_score gap_open_score gap_extend_score)
           [0..<n] st0)"

definition smith_waterman_gotoh ::
  "string \<Rightarrow> string \<Rightarrow> int \<Rightarrow> int \<Rightarrow> int \<Rightarrow> int \<Rightarrow> error + (int \<times> CigarOp list)" where
  "smith_waterman_gotoh s1 s2 match_score mismatch_score gap_open_score gap_extend_score =
     (if gap_open_score = gap_extend_score
      then smith_waterman s1 s2 match_score mismatch_score gap_open_score
      else
        (let n = int (length s1);
             m = int (length s2);
             st = gotoh_table s1 s2 match_score mismatch_score gap_open_score gap_extend_score
         in case read_at ''cost'' (cost st) ((m + 1) * (max_i st + 1) + max_j st + 1) of
              Inl e \<Rightarrow> Inl e
            | Inr score \<Rightarrow>
                (case roll_cigar n m (max_i st) (max_j st) (edits st) of
                   Inl e \<Rightarrow> Inl e
                 | Inr cigar \<Rightarrow> Inr (score, cigar))))"

subsection \<open>Reading alignment scripts\<close>

text \<open>
  Modelled from the spec: \<open>cigar_to_string\<close> is imported from \<open>glu.lib.seqlib.edits\<close>,
  which is not among the sources. The string form of the spec writes each CigarOp as its
  count in decimal followed by its op symbol.
\<close>

fun decimal :: "nat \<Rightarrow> string" where
  "decimal n =
     (if n < 10 then [''0123456789'' ! n]
      else decimal (n div 10) @ [''0123456789'' ! (n mod 10)])"

definition cigar_to_string :: "CigarOp list \<Rightarrow> string" where
  "cigar_to_string cigar = concat (map (\<lambda>x. decimal (nat (count x)) @ op x) cigar)"

text \<open>
  The score a script stands for, in the words of the spec: \<open>match_score\<close> for each
  aligned equal symbol, \<open>mismatch_score\<close> for each aligned unequal symbol, the gap
  cost for inserted and deleted symbols, nothing for skipped ones. Under the single gap
  penalty every inserted or deleted symbol costs \<open>gap_score\<close>; under the affine model
  a run of \<open>count\<close> symbols costs one \<open>gap_open_score\<close> and \<open>count - 1\<close> times
  \<open>gap_extend_score\<close>.
\<close>

definition op_score :: "int \<Rightarrow> int \<Rightarrow> int \<Rightarrow> CigarOp \<Rightarrow> int" where
  "op_score match_score mismatch_score gap_score x =
     (if op x = ''='' then match_score * count x
      else if op x = ''X'' then mismatch_score * count x
      else if op x = ''I'' \<or> op x = ''D'' then gap_score * count x
      else 0)"

definition script_score :: "int \<Rightarrow> int \<Rightarrow> int \<Rightarrow> CigarOp list \<Rightarrow> int" where
  "script_score match_score mismatch_score gap_score cigar =
     sum_list (map (op_score match_score mismatch_score gap_score) cigar)"

definition affine_op_score :: "int \<Rightarrow> int \<Rightarrow> int \<Rightarrow> int \<Rightarrow> CigarOp \<Rightarrow> int" where
  "affine_op_score match_score mismatch_score gap_open_score gap_extend_score x =
     (if op x = ''='' then match_score * count x
      else if op x = ''X'' then mismatch_score * count x
      else if op x = ''I'' \<or> op x = ''D''
        then gap_open_score + (count x - 1) * gap_extend_score
      else 0)"

definition affine_script_score :: "int \<Rightarrow> int \<Rightarrow> int \<Rightarrow> int \<Rightarrow> CigarOp list \<Rightarrow> int" where
  "affine_script_score match_score mismatch_score gap_open_score gap_extend_score cigar =
     sum_list (map (affine_op_score match_score mismatch_score gap_open_score gap_extend_score)
       cigar)"

text \<open>
  A script is maximal-run encoded when neighbouring entries have different ops and every
  count is positive. \<open>expand\<close> writes a script out as one symbol per position.
\<close>

definition maximal_run :: "CigarOp list \<Rightarrow> bool" where
  "maximal_run cigar = (distinct_adj (map op cigar) \<and> list_all (\<lambda>x. 0 < count x) cigar)"

definition expand :: "CigarOp list \<Rightarrow> char list" where
  "expand cigar = concat (map (\<lambda>x. replicate (nat (count x)) (hd (op x))) cigar)"

subsection \<open>Invariants used in the proofs\<close>

text \<open>Every op of the script is the one-symbol string of a symbol \<open>op_str\<close> accepts.\<close>

definition wf_ops :: "CigarOp list \<Rightarrow> bool" where
  "wf_ops cigar = list_all (\<lambda>x. op_str (hd (op x)) = Inr (op x)) cigar"

text \<open>The invariant of the encoder's state \<open>(op, count, cigar)\<close>.\<close>

definition roll_inv :: "char \<times> int \<times> CigarOp list \<Rightarrow> bool" where
  "roll_inv st =
     (case st of (opc, cnt, cigar) \<Rightarrow>
        0 \<le> cnt \<and> maximal_run cigar \<and> wf_ops cigar \<and> (cnt = 0 \<longrightarrow> cigar = []) \<and>
        (cigar \<noteq> [] \<longrightarrow> op (last cigar) \<noteq> [opc]))"

text \<open>
  The relation between the rows of the Damerau-Levenshtein table and those of the
  Levenshtein table after the same number of outer steps: all rows have \<open>m + 1\<close> cells
  and the current row of the former is cellwise at most that of the latter.
\<close>

definition rows_rel :: "nat \<Rightarrow> int list \<times> int list \<times> int list \<Rightarrow> int list \<times> int list \<Rightarrow> bool" where
  "rows_rel m d l =
     (case d of (cd, p1, p2) \<Rightarrow> case l of (cl, pl) \<Rightarrow>
        length cd = Suc m \<and> length p1 = Suc m \<and> length p2 = Suc m \<and>
        length cl = Suc m \<and> length pl = Suc m \<and> (\<forall>j\<le>m. cd ! j \<le> cl ! j))"

section \<open>Properties\<close>

subsection \<open>Hamming distance\<close>

lemma count_fold:
  "fold (\<lambda>i d. if P i then d + 1 else d) xs (d0::int) = d0 + int (length (filter P xs))"
  by (induction xs arbitrary: d0) auto

lemma count_upt: "length (filter P [0..<n]) = card {i. i < n \<and> P i}"
proof -
  have "{i. i < length [0..<n] \<and> P ([0..<n] ! i)} = {i. i < n \<and> P i}" by auto
  then show ?thesis by (simp add: length_filter_conv_card)
qed

text \<open>
  C5: on sequences of equal length \<open>hamming_distance\<close> returns the number of index
  positions at which they differ, and never fails; on sequences of unequal length it
  fails with the length-mismatch error and returns no result.
\<close>

theorem hamming_distance_counts:
  "(length A = length B \<longrightarrow>
      hamming_distance A B = Inr (int (card {i. i < length A \<and> A ! i \<noteq> B ! i}))) \<and>
   (length A \<noteq> length B \<longrightarrow> hamming_distance A B = Inl LengthMismatch)"
  by (simp add: hamming_distance_def count_fold count_upt)

theorem hamming_distance_counts_witness:
  "length ''abb'' = length ''abc'' \<and>
   hamming_distance ''abb'' ''abc'' = Inr (int (card {i. i < length ''abb'' \<and> ''abb'' ! i \<noteq> ''abc'' ! i})) \<and>
   hamming_distance ''abb'' ''abc'' = Inr 1 \<and>
   length ''a'' \<noteq> length ''ab'' \<and>
   hamming_distance ''a'' ''ab'' = Inl LengthMismatch"
proof -
  have e: "hamming_distance ''abb'' ''abc'' = Inr 1" by code_simp
  show ?thesis
    using hamming_distance_counts [of "''abb''" "''abc''"] hamming_distance_counts [of "''a''" "''ab''"] e
    by simp
qed

subsection \<open>The worked cases of the edit distances\<close>

text \<open>
  C8: \<open>levenshtein_distance("ac","abc") = 1\<close>, \<open>levenshtein_distance("ba","ab") = 2\<close>,
  \<open>damerau_levenshtein_distance("ba","ab") = 1\<close> and
  \<open>damerau_levenshtein_distance("fee","deed") = 2\<close>.
\<close>

theorem edit_distance_concrete_cases:
  "levenshtein_distance ''ac'' ''abc'' = 1 \<and>
   levenshtein_distance ''ba'' ''ab'' = 2 \<and>
   damerau_levenshtein_distance ''ba'' ''ab'' = 1 \<and>
   damerau_levenshtein_distance ''fee'' ''deed'' = 2"
  by code_simp

subsection \<open>Damerau-Levenshtein is at most Levenshtein\<close>

lemma min4_le_min3:
  "a \<le> a' \<Longrightarrow> b \<le> b' \<Longrightarrow> c \<le> c' \<Longrightarrow> min4 a b c d \<le> min3 a' b' c'"
  by (simp add: min4_def min3_def min2_def)

lemma length_lev_cells: "length (fold (lev_cell c1 ss2 p) js c) = length c"
  by (induction js arbitrary: c) (simp_all add: lev_cell_def Let_def)

lemma length_dl_cells: "length (fold (dl_cell ss1 ss2 i p1 p2) js c) = length c"
  by (induction js arbitrary: c) (simp_all add: dl_cell_def Let_def)

lemma cells_le:
  assumes "length pd = Suc m" "length pl = Suc m" "length cd = Suc m" "length cl = Suc m"
    and "\<forall>j\<le>m. pd ! j \<le> pl ! j" and "cd ! 0 \<le> cl ! 0"
  shows "k \<le> m \<Longrightarrow> \<forall>j\<le>k. fold (dl_cell ss1 ss2 i pd p2) [0..<k] cd ! j
                       \<le> fold (lev_cell (ss1 ! i) ss2 pl) [0..<k] cl ! j"
proof (induction k)
  case 0
  then show ?case using assms by simp
next
  case (Suc k)
  let ?d = "fold (dl_cell ss1 ss2 i pd p2) [0..<k] cd"
  let ?l = "fold (lev_cell (ss1 ! i) ss2 pl) [0..<k] cl"
  have ih: "\<forall>j\<le>k. ?d ! j \<le> ?l ! j" using Suc by simp
  have ld: "length ?d = Suc m" and ll: "length ?l = Suc m"
    using assms by (simp_all add: length_dl_cells length_lev_cells)
  have k: "Suc k \<le> m" using Suc.prems .
  have a: "pd ! k \<le> pl ! k" and b: "pd ! Suc k \<le> pl ! Suc k" and c: "?d ! k \<le> ?l ! k"
    using assms(5) ih k by auto
  show ?case
  proof (intro allI impI)
    fix j assume j: "j \<le> Suc k"
    show "fold (dl_cell ss1 ss2 i pd p2) [0..<Suc k] cd ! j
            \<le> fold (lev_cell (ss1 ! i) ss2 pl) [0..<Suc k] cl ! j"
    proof (cases "j = Suc k")
      case True
      then show ?thesis using ld ll k a b c
        by (simp add: dl_cell_def lev_cell_def Let_def min4_le_min3)
    next
      case False
      then have "j \<le> k" using j by simp
      then show ?thesis using ih False
        by (simp add: dl_cell_def lev_cell_def Let_def)
    qed
  qed
qed

lemma rows_rel_step:
  assumes "rows_rel (length ss2) d l"
  shows "rows_rel (length ss2) (dl_row ss1 ss2 i d) (lev_row ss1 ss2 i l)"
proof -
  obtain cd p1 p2 where d: "d = (cd, p1, p2)" by (cases d) auto
  obtain cl pl where l: "l = (cl, pl)" by (cases l) auto
  let ?m = "length ss2"
  have len: "length cd = Suc ?m" "length p1 = Suc ?m" "length p2 = Suc ?m"
    "length cl = Suc ?m" "length pl = Suc ?m" and le: "\<forall>j\<le>?m. cd ! j \<le> cl ! j"
    using assms by (simp_all add: rows_rel_def d l)
  have "\<forall>j\<le>?m. fold (dl_cell ss1 ss2 i cd p1) [0..<?m] (p2[0 := int i + 1]) ! j
                \<le> fold (lev_cell (ss1 ! i) ss2 cl) [0..<?m] (pl[0 := int i + 1]) ! j"
    by (rule cells_le [where m = ?m]) (use len le in simp_all)
  then show ?thesis
    using len by (simp add: rows_rel_def d l dl_row_def lev_row_def Let_def
        length_dl_cells length_lev_cells)
qed

lemma rows_rel_fold:
  "rows_rel (length ss2) d l \<Longrightarrow>
   rows_rel (length ss2) (fold (dl_row ss1 ss2) is d) (fold (lev_row ss1 ss2) is l)"
  by (induction "is" arbitrary: d l) (simp_all add: rows_rel_step)

lemma dl_rows_le_lev_rows:
  "fst (dl_rows s1 s2) ! length s2 \<le> fst (lev_rows s1 s2) ! length s2"
proof -
  let ?m = "length s2"
  have "rows_rel ?m (map int [0..<?m + 1], replicate (?m + 1) 0, replicate (?m + 1) 0)
          (map int [0..<?m + 1], replicate (?m + 1) 0)"
    by (simp add: rows_rel_def)
  then have "rows_rel ?m (dl_rows s1 s2) (lev_rows s1 s2)"
    unfolding dl_rows_def lev_rows_def Let_def by (rule rows_rel_fold)
  then show ?thesis
    by (auto simp: rows_rel_def split: prod.splits)
qed

lemma lev_rows_empty_aux:
  "length p = 1 \<Longrightarrow>
   fst (fold (lev_row s1 []) [0..<k] ([0], p)) = [int k] \<and>
   length (snd (fold (lev_row s1 []) [0..<k] ([0], p))) = 1"
proof (induction k)
  case 0
  then show ?case by simp
next
  case (Suc k)
  obtain c q where f: "fold (lev_row s1 []) [0..<k] ([0], p) = (c, q)"
    by (cases "fold (lev_row s1 []) [0..<k] ([0], p)") auto
  with Suc have c: "c = [int k]" and q: "length q = 1" by simp_all
  from q obtain x where x: "q = [x]" by (cases q) auto
  have "fold (lev_row s1 []) [0..<Suc k] ([0], p) = lev_row s1 [] k (c, q)"
    by (simp add: f)
  also have "\<dots> = ([int (Suc k)], c)"
    by (simp add: lev_row_def x)
  finally show ?case by (simp add: c)
qed

lemma lev_rows_empty: "fst (lev_rows s1 []) ! 0 = int (length s1)"
  using lev_rows_empty_aux [of "[0]" s1 "length s1"] by (simp add: lev_rows_def)

text \<open>
  C6: for every pair of sequences the Damerau-Levenshtein distance the code returns is at
  most the Levenshtein distance it returns.
\<close>

theorem damerau_le_levenshtein:
  "damerau_levenshtein_distance A B \<le> levenshtein_distance A B"
proof -
  obtain a b k where r: "reduce_match A B = (a, b, k)" by (cases "reduce_match A B") auto
  have "damerau_levenshtein_body a b \<le> levenshtein_body a b"
  proof -
    obtain s1 s2 where s: "(if length a < length b then (b, a) else (a, b)) = (s1, s2)"
      by (cases "if length a < length b then (b, a) else (a, b)") auto
    then have len: "length s2 \<le> length s1" by (auto split: if_splits)
    show ?thesis
    proof (cases "s2 = []")
      case True
      then show ?thesis
        using dl_rows_le_lev_rows [of s1 "[]"] lev_rows_empty [of s1] s
        unfolding damerau_levenshtein_body_def levenshtein_body_def by simp
    next
      case False
      then have "s1 \<noteq> []" using len by auto
      then show ?thesis
        using dl_rows_le_lev_rows [of s1 s2] False s
        unfolding damerau_levenshtein_body_def levenshtein_body_def by simp
    qed
  qed
  then show ?thesis
    by (simp add: damerau_levenshtein_distance_def levenshtein_distance_def r)
qed


subsection \<open>What \<open>reduce_match\<close> returns\<close>

text \<open>
  C7: on equal inputs \<open>reduce_match\<close> should return two empty sequences and the length
  of the input, as its docstring says of \<open>reduce_match('abc','abc')\<close>. The prefix loop
  runs to its end without a \<open>break\<close>, which leaves \<open>i = 2\<close>, the last index, and the
  code returns \<open>('c', 'c', 2)\<close>. On \<open>('abc','ac')\<close> it returns \<open>('bc', 'c', 1)\<close>
  where the docstring has \<open>('b', '', 1)\<close>, because the suffix loop ends the same way.
\<close>

theorem reduce_match_equal_inputs:
  "reduce_match ''abc'' ''abc'' = (''c'', ''c'', 2) \<and>
   reduce_match ''abc'' ''ac'' = (''bc'', ''c'', 1)"
  by code_simp

text \<open>
  C2: trimming with \<open>reduce_match\<close> should leave the distances unchanged. When the
  second sequence is empty the suffix loop has an empty range, \<open>j\<close> keeps its initial
  value \<open>l1 - 1\<close>, and \<open>reduce_match('abc','')\<close> returns \<open>('a', '', 0)\<close>. The rest
  of either distance function gives 1 on the trimmed pair and 3 on the pair itself, so
  \<open>levenshtein_distance('abc','')\<close> and \<open>damerau_levenshtein_distance('abc','')\<close>
  are 1, while the distance from the arguments in the other order is 3.
\<close>

theorem reduce_match_changes_distance:
  "reduce_match ''abc'' [] = (''a'', [], 0) \<and>
   levenshtein_body ''a'' [] = 1 \<and> levenshtein_body ''abc'' [] = 3 \<and>
   damerau_levenshtein_body ''a'' [] = 1 \<and> damerau_levenshtein_body ''abc'' [] = 3 \<and>
   levenshtein_distance ''abc'' [] = 1 \<and> damerau_levenshtein_distance ''abc'' [] = 1 \<and>
   levenshtein_distance [] ''abc'' = 3 \<and> damerau_levenshtein_distance [] ''abc'' = 3"
  by code_simp

subsection \<open>The worked cases of Smith-Waterman\<close>

text \<open>
  C1: \<open>smith_waterman("b","abc")\<close> with the default scores returns score 1 and the
  script of one skipped symbol of the second sequence, one match and one more skipped
  symbol, \<open>"1N1=1N"\<close>; \<open>smith_waterman("abcbd","acd")\<close> with \<open>match_score = 2\<close>
  returns score 4 and the script \<open>"1=1D1=1D1="\<close>.
\<close>

theorem smith_waterman_worked_examples:
  "smith_waterman ''b'' ''abc'' 1 (- 1) (- 1)
     = Inr (1, [CigarOp ''N'' 1, CigarOp ''='' 1, CigarOp ''N'' 1]) \<and>
   cigar_to_string [CigarOp ''N'' 1, CigarOp ''='' 1, CigarOp ''N'' 1] = ''1N1=1N'' \<and>
   smith_waterman ''abcbd'' ''acd'' 2 (- 1) (- 1)
     = Inr (4, [CigarOp ''='' 1, CigarOp ''D'' 1, CigarOp ''='' 1, CigarOp ''D'' 1,
                CigarOp ''='' 1]) \<and>
   cigar_to_string [CigarOp ''='' 1, CigarOp ''D'' 1, CigarOp ''='' 1, CigarOp ''D'' 1,
                    CigarOp ''='' 1] = ''1=1D1=1D1=''"
  by code_simp

subsection \<open>Equal gap scores\<close>

text \<open>
  C3: when \<open>gap_open_score\<close> equals \<open>gap_extend_score\<close>, \<open>smith_waterman_gotoh\<close>
  hands the call to \<open>smith_waterman\<close> with \<open>gap_score\<close> set to that value and returns
  its result, for all sequences and all match and mismatch scores.
\<close>

theorem gotoh_delegates_to_smith_waterman:
  "gap_open_score = gap_extend_score \<Longrightarrow>
   smith_waterman_gotoh s1 s2 match_score mismatch_score gap_open_score gap_extend_score
     = smith_waterman s1 s2 match_score mismatch_score gap_open_score"
  by (simp add: smith_waterman_gotoh_def)

theorem gotoh_delegates_to_smith_waterman_witness:
  "(- 1 :: int) = - 1 \<and>
   smith_waterman_gotoh ''abcbd'' ''acd'' 2 (- 1) (- 1) (- 1)
     = smith_waterman ''abcbd'' ''acd'' 2 (- 1) (- 1) \<and>
   smith_waterman_gotoh ''abcbd'' ''acd'' 2 (- 1) (- 1) (- 1)
     = Inr (4, [CigarOp ''='' 1, CigarOp ''D'' 1, CigarOp ''='' 1, CigarOp ''D'' 1,
                CigarOp ''='' 1])"
proof -
  have e: "smith_waterman ''abcbd'' ''acd'' 2 (- 1) (- 1)
             = Inr (4, [CigarOp ''='' 1, CigarOp ''D'' 1, CigarOp ''='' 1, CigarOp ''D'' 1,
                        CigarOp ''='' 1])"
    by code_simp
  have h: "(- 1 :: int) = - 1" by simp
  show ?thesis
    using gotoh_delegates_to_smith_waterman [OF h, of "''abcbd''" "''acd''" 2 "- 1"] e
    by simp
qed

subsection \<open>Score and script\<close>

text \<open>
  C4: the ops of a returned script should add up to the returned score. On
  \<open>("ab","aaba")\<close> with the default scores both engines return score 2 with the script
  \<open>"1N1=1X1N"\<close>, one match and one mismatch, which adds up to 0. The skip loop has
  decremented \<open>m\<close> before the walk uses it as the row stride of \<open>edits\<close>, so the
  walk reads the operation of another cell.
\<close>

theorem script_score_differs_from_score:
  "smith_waterman ''ab'' ''aaba'' 1 (- 1) (- 1)
     = Inr (2, [CigarOp ''N'' 1, CigarOp ''='' 1, CigarOp ''X'' 1, CigarOp ''N'' 1]) \<and>
   script_score 1 (- 1) (- 1)
     [CigarOp ''N'' 1, CigarOp ''='' 1, CigarOp ''X'' 1, CigarOp ''N'' 1] = 0 \<and>
   smith_waterman_gotoh ''ab'' ''aaba'' 1 (- 1) (- 2) (- 1)
     = Inr (2, [CigarOp ''N'' 1, CigarOp ''='' 1, CigarOp ''X'' 1, CigarOp ''N'' 1]) \<and>
   affine_script_score 1 (- 1) (- 2) (- 1)
     [CigarOp ''N'' 1, CigarOp ''='' 1, CigarOp ''X'' 1, CigarOp ''N'' 1] = 0"
  by code_simp

subsection \<open>The scratch buffer of the backtracker\<close>

text \<open>
  C10: the symbols the backtracker writes should fit the \<open>max2(n,m)\<close> bytes of
  \<open>igar\<close>. On \<open>("ab","cb")\<close> with the default scores, \<open>n = m = 2\<close>, the walk writes
  \<open>'='\<close> and \<open>'D'\<close> and the trailing skip loop then writes \<open>'N'\<close> at \<open>igar[2]\<close>,
  past the end of the buffer, in both engines.
\<close>

theorem backtracker_overflows_igar:
  "smith_waterman ''ab'' ''cb'' 1 (- 1) (- 1) = Inl (OutOfBounds ''igar'') \<and>
   smith_waterman_gotoh ''ab'' ''cb'' 1 (- 1) (- 2) (- 1) = Inl (OutOfBounds ''igar'')"
  by code_simp

subsection \<open>Run-length encoding\<close>

lemma op_str_Inr: "op_str c = Inr s \<Longrightarrow> s = [c] \<and> c \<noteq> CHR 0x00"
  by (auto simp: op_str_def split: if_splits)

lemma maximal_run_snoc:
  "maximal_run (cs @ [x]) \<longleftrightarrow>
     maximal_run cs \<and> 0 < count x \<and> (cs \<noteq> [] \<longrightarrow> op (last cs) \<noteq> op x)"
  by (auto simp: maximal_run_def distinct_adj_append_iff last_map hd_map)

lemma roll_step_inv:
  assumes "roll_inv st" and "roll_step c st = Inr st'"
  shows "roll_inv st'"
proof -
  obtain opc cnt cigar where st: "st = (opc, cnt, cigar)" by (cases st) auto
  show ?thesis
  proof (cases "c = opc")
    case True
    then show ?thesis using assms by (auto simp: st roll_step_def roll_inv_def)
  next
    case neq: False
    show ?thesis
    proof (cases "cnt = 0")
      case True
      then show ?thesis using assms neq
        by (auto simp: st roll_step_def roll_inv_def maximal_run_def wf_ops_def)
    next
      case False
      with assms neq obtain s where s: "op_str opc = Inr s"
        and st': "st' = (c, 1, cigar @ [CigarOp s cnt])"
        by (auto simp: st roll_step_def split: sum.splits)
      from s have s1: "s = [opc]" by (simp add: op_str_Inr)
      show ?thesis using assms(1) False neq s
        by (simp add: st st' s1 roll_inv_def maximal_run_snoc wf_ops_def)
    qed
  qed
qed

lemma roll_loop_inv:
  "roll_inv st \<Longrightarrow> roll_loop syms st = Inr st' \<Longrightarrow> roll_inv st'"
proof (induction syms arbitrary: st)
  case Nil
  then show ?case by simp
next
  case (Cons c syms)
  then show ?case by (auto split: sum.splits dest: roll_step_inv)
qed

lemma roll_finish_inv:
  assumes "roll_inv st" and "roll_finish st = Inr cigar"
  shows "maximal_run cigar \<and> wf_ops cigar"
proof -
  obtain opc cnt cs where st: "st = (opc, cnt, cs)" by (cases st) auto
  show ?thesis
  proof (cases "cnt = 0")
    case True
    then show ?thesis using assms by (auto simp: st roll_finish_def roll_inv_def)
  next
    case False
    with assms obtain s where s: "op_str opc = Inr s" and c: "cigar = cs @ [CigarOp s cnt]"
      by (auto simp: st roll_finish_def split: sum.splits)
    from s have s1: "s = [opc]" by (simp add: op_str_Inr)
    show ?thesis using assms(1) False s
      by (simp add: st c s1 roll_inv_def maximal_run_snoc wf_ops_def)
  qed
qed

lemma roll_encode_wf:
  assumes "roll_encode syms = Inr cigar"
  shows "maximal_run cigar \<and> wf_ops cigar"
proof -
  from assms obtain st where l: "roll_loop syms (CHR 0x00, 0, []) = Inr st"
    and f: "roll_finish st = Inr cigar"
    by (auto simp: roll_encode_def split: sum.splits)
  have "roll_inv (CHR 0x00, 0, [])"
    by (simp add: roll_inv_def maximal_run_def wf_ops_def)
  then have "roll_inv st" using l by (rule roll_loop_inv)
  then show ?thesis using f by (rule roll_finish_inv)
qed

lemma roll_loop_replicate:
  "roll_loop (replicate q c @ ys) (c, n, a) = roll_loop ys (c, n + int q, a)"
  by (induction q arbitrary: n) (simp_all add: roll_step_def algebra_simps)

lemma expand_Cons:
  "expand (x # r) = replicate (nat (count x)) (hd (op x)) @ expand r"
  by (simp add: expand_def)

lemma roundtrip_aux:
  "maximal_run cs \<Longrightarrow> wf_ops cs \<Longrightarrow> 0 \<le> n0 \<Longrightarrow> (n0 \<noteq> 0 \<longrightarrow> op_str c0 = Inr [c0]) \<Longrightarrow>
   (cs \<noteq> [] \<longrightarrow> op (hd cs) \<noteq> [c0]) \<Longrightarrow>
   (case roll_loop (expand cs) (c0, n0, acc) of Inl e \<Rightarrow> Inl e | Inr st \<Rightarrow> roll_finish st)
     = Inr (acc @ (if n0 \<noteq> 0 then [CigarOp [c0] n0] else []) @ cs)"
proof (induction cs arbitrary: c0 n0 acc)
  case Nil
  then show ?case by (simp add: expand_def roll_finish_def)
next
  case (Cons x r)
  obtain s k where x: "x = CigarOp s k" by (cases x) auto
  from Cons.prems(2) have ws: "op_str (hd s) = Inr s" and wr: "wf_ops r"
    by (simp_all add: wf_ops_def x)
  define c where "c = hd s"
  from ws have s: "s = [c]" and ok: "op_str c = Inr [c]"
    using op_str_Inr [of "hd s" s] by (simp_all add: c_def)
  from Cons.prems(1) have k: "0 < k" and mr: "maximal_run r"
    by (cases r; simp add: maximal_run_def x s)+
  from Cons.prems(1) have adj: "r \<noteq> [] \<longrightarrow> op (hd r) \<noteq> [c]"
    by (cases r) (auto simp: maximal_run_def x s)
  from Cons.prems(5) have neq: "c \<noteq> c0" by (simp add: x s)
  define acc' where "acc' = acc @ (if n0 \<noteq> 0 then [CigarOp [c0] n0] else [])"
  obtain q where q: "nat k = Suc q" using k by (cases "nat k") auto
  then have kq: "1 + int q = k" using k by linarith
  have step: "roll_step c (c0, n0, acc) = Inr (c, 1, acc')"
    using neq Cons.prems(4) by (simp add: roll_step_def acc'_def)
  have "roll_loop (expand (x # r)) (c0, n0, acc)
          = roll_loop (replicate q c @ expand r) (c, 1, acc')"
    by (simp add: expand_Cons x s q step)
  also have "\<dots> = roll_loop (expand r) (c, k, acc')"
    by (simp add: roll_loop_replicate kq)
  finally have e: "roll_loop (expand (x # r)) (c0, n0, acc) = roll_loop (expand r) (c, k, acc')" .
  have "(case roll_loop (expand r) (c, k, acc') of Inl e \<Rightarrow> Inl e | Inr st \<Rightarrow> roll_finish st)
          = Inr (acc' @ (if k \<noteq> 0 then [CigarOp [c] k] else []) @ r)"
    using mr wr k ok adj by (intro Cons.IH) simp_all
  then show ?case unfolding e using k by (simp add: acc'_def x s)
qed

lemma roll_encode_expand:
  assumes "maximal_run cs" and "wf_ops cs"
  shows "roll_encode (expand cs) = Inr cs"
proof -
  have "cs \<noteq> [] \<longrightarrow> op (hd cs) \<noteq> [CHR 0x00]"
  proof
    assume "cs \<noteq> []"
    then obtain x r where "cs = x # r" by (cases cs) auto
    with assms(2) have "op_str (hd (op x)) = Inr (op x)" by (simp add: wf_ops_def)
    then have "op x = [hd (op x)]" "hd (op x) \<noteq> CHR 0x00" using op_str_Inr by blast+
    then show "op (hd cs) \<noteq> [CHR 0x00]" using \<open>cs = x # r\<close> by auto
  qed
  then show ?thesis
    using roundtrip_aux [OF assms, of 0 "CHR 0x00" "[]"] by (simp add: roll_encode_def)
qed

lemma roll_cigar_encoded:
  "roll_cigar n m i j es = Inr cigar \<Longrightarrow> \<exists>syms. roll_encode syms = Inr cigar"
  by (auto simp: roll_cigar_def Let_def split: sum.splits prod.splits)

lemma smith_waterman_encoded:
  "smith_waterman s1 s2 ms mms g = Inr (score, cigar) \<Longrightarrow> \<exists>syms. roll_encode syms = Inr cigar"
  by (auto simp: smith_waterman_def Let_def split: sum.splits dest: roll_cigar_encoded)

lemma smith_waterman_gotoh_encoded:
  "smith_waterman_gotoh s1 s2 ms mms go ge = Inr (score, cigar) \<Longrightarrow>
   \<exists>syms. roll_encode syms = Inr cigar"
  by (auto simp: smith_waterman_gotoh_def Let_def split: sum.splits if_splits
      dest: roll_cigar_encoded smith_waterman_encoded)

text \<open>
  C9: every script \<open>smith_waterman\<close> or \<open>smith_waterman_gotoh\<close> returns is maximal-run
  encoded: neighbouring entries have different ops and every count is positive. Writing
  the script out symbol by symbol and encoding it again gives the same script.
\<close>

theorem scripts_maximal_run:
  "(smith_waterman s1 s2 ms mms g = Inr (score, cigar) \<longrightarrow>
      maximal_run cigar \<and> roll_encode (expand cigar) = Inr cigar) \<and>
   (smith_waterman_gotoh s1 s2 ms mms go ge = Inr (score', cigar') \<longrightarrow>
      maximal_run cigar' \<and> roll_encode (expand cigar') = Inr cigar')"
  using roll_encode_wf roll_encode_expand smith_waterman_encoded smith_waterman_gotoh_encoded
  by metis

theorem scripts_maximal_run_witness:
  "smith_waterman ''abcbd'' ''beb'' 2 (- 1) (- 1)
     = Inr (3, [CigarOp ''S'' 1, CigarOp ''='' 1, CigarOp ''X'' 1, CigarOp ''='' 1,
                CigarOp ''S'' 1]) \<and>
   maximal_run [CigarOp ''S'' 1, CigarOp ''='' 1, CigarOp ''X'' 1, CigarOp ''='' 1,
                CigarOp ''S'' 1] \<and>
   roll_encode (expand [CigarOp ''S'' 1, CigarOp ''='' 1, CigarOp ''X'' 1, CigarOp ''='' 1,
                        CigarOp ''S'' 1])
     = Inr [CigarOp ''S'' 1, CigarOp ''='' 1, CigarOp ''X'' 1, CigarOp ''='' 1,
            CigarOp ''S'' 1] \<and>
   smith_waterman_gotoh ''abbcbbd'' ''acd'' 4 (- 1) (- 2) (- 1)
     = Inr (6, [CigarOp ''='' 1, CigarOp ''D'' 2, CigarOp ''='' 1, CigarOp ''D'' 2,
                CigarOp ''='' 1]) \<and>
   maximal_run [CigarOp ''='' 1, CigarOp ''D'' 2, CigarOp ''='' 1, CigarOp ''D'' 2,
                CigarOp ''='' 1] \<and>
   roll_encode (expand [CigarOp ''='' 1, CigarOp ''D'' 2, CigarOp ''='' 1, CigarOp ''D'' 2,
                        CigarOp ''='' 1])
     = Inr [CigarOp ''='' 1, CigarOp ''D'' 2, CigarOp ''='' 1, CigarOp ''D'' 2,
            CigarOp ''='' 1]"
proof -
  have a: "smith_waterman ''abcbd'' ''beb'' 2 (- 1) (- 1)
     = Inr (3, [CigarOp ''S'' 1, CigarOp ''='' 1, CigarOp ''X'' 1, CigarOp ''='' 1,
                CigarOp ''S'' 1])"
    by code_simp
  have b: "smith_waterman_gotoh ''abbcbbd'' ''acd'' 4 (- 1) (- 2) (- 1)
     = Inr (6, [CigarOp ''='' 1, CigarOp ''D'' 2, CigarOp ''='' 1, CigarOp ''D'' 2,
                CigarOp ''='' 1])"
    by code_simp
  show ?thesis
    using a b
      scripts_maximal_run [of "''abcbd''" "''beb''" 2 "- 1" "- 1" 3
        "[CigarOp ''S'' 1, CigarOp ''='' 1, CigarOp ''X'' 1, CigarOp ''='' 1, CigarOp ''S'' 1]"]
      scripts_maximal_run [of "''abbcbbd''" "''acd''" 4 "- 1" _ _ _ "- 2" "- 1" 6
        "[CigarOp ''='' 1, CigarOp ''D'' 2, CigarOp ''='' 1, CigarOp ''D'' 2, CigarOp ''='' 1]"]
    by blast
qed

end
